theory Spec2Isabelle
  imports Main "HOL-Library.Char_ord" "HOL-Library.List_Lexorder" "HOL-Library.Product_Lexorder"
    "HOL-Library.Multiset"
begin

section \<open>Time, timezones and the timetable data model\<close>

text \<open>
  An aware \<^verbatim>\<open>datetime\<close> is modelled by the instant it denotes: an integer number of
  microseconds since the epoch (UTC). A \<^verbatim>\<open>timedelta\<close> is an integer number of
  microseconds, a \<^verbatim>\<open>date\<close> the number of the day since the epoch. Comparison and
  subtraction of aware datetimes compare and subtract instants.
\<close>

type_synonym instant = int
type_synonym timedelta = int
type_synonym date = int

definition hour :: timedelta where
  "hour = 3600000000"

definition minute :: timedelta where
  "minute = 60000000"

definition day_length :: timedelta where
  "day_length = 24 * hour"

text \<open>
  Modelled from the spec: \<^verbatim>\<open>get_day_start\<close> and \<^verbatim>\<open>get_day_end\<close> of
  \<^verbatim>\<open>indico.util.date_time\<close> are not among the sources; by the spec they give the start
  (local midnight) and the end of a local day. They are fields of the timezone, which the
  code uses through three operations only:
  \<^item> \<open>local_date tz t\<close> is \<^verbatim>\<open>t.astimezone(tz).date()\<close>;
  \<^item> \<open>get_day_start tz d\<close> is \<^verbatim>\<open>get_day_start(d, tzinfo=tz)\<close>;
  \<^item> \<open>get_day_end tz d\<close> is \<^verbatim>\<open>get_day_end(d, tzinfo=tz)\<close>.
\<close>

record timezone =
  local_date :: "instant \<Rightarrow> date"
  get_day_start :: "date \<Rightarrow> instant"
  get_day_end :: "date \<Rightarrow> instant"

text \<open>
  \<^verbatim>\<open>get_day_start(day, tzinfo=tz).replace(hour=8, minute=0)\<close>: the wall clock of local
  midnight with hour 8 and minute 0, in the same UTC offset.
\<close>

definition replace_hour_8 :: "timezone \<Rightarrow> date \<Rightarrow> instant" where
  "replace_hour_8 tz day = get_day_start tz day + 8 * hour"

text \<open>UTC itself, and a zone at a fixed offset east of UTC; the day ends at 23:59.\<close>

definition fixed_offset :: "timedelta \<Rightarrow> timezone" where
  "fixed_offset off =
     \<lparr> local_date = (\<lambda>t. (t + off) div day_length),
       get_day_start = (\<lambda>d. d * day_length - off),
       get_day_end = (\<lambda>d. d * day_length + 23 * hour + 59 * minute - off) \<rparr>"

definition utc :: timezone where
  "utc = fixed_offset 0"

datatype TimetableEntryType = SESSION_BLOCK | CONTRIBUTION | BREAK

record Session =
  session_id :: nat
  code :: string
  friendly_id :: nat
  session_inherit_location :: bool

text \<open>
  \<^verbatim>\<open>entry.object\<close>: the session block, contribution or break an entry schedules.
\<close>

datatype tt_object =
    SessionBlockObj (obj_id: nat) (full_title: string) (inherit_location: bool) (session: Session)
  | ContributionObj (obj_id: nat) (title: string) (inherit_location: bool)
  | BreakObj (obj_id: nat) (title: string) (inherit_location: bool)

text \<open>
  A timetable entry. \<^verbatim>\<open>entry.type\<close> and \<^verbatim>\<open>entry.object\<close> agree (the object of a
  \<^verbatim>\<open>SESSION_BLOCK\<close> entry is its session block, and so on), so the type is read off the
  object.
\<close>

datatype TimetableEntry =
  TimetableEntry (entry_id: nat) (start_dt: instant) (end_dt: instant)
    (parent_id: "nat option") (object: tt_object) (children: "TimetableEntry list")

fun entry_type :: "TimetableEntry \<Rightarrow> TimetableEntryType" where
  "entry_type e =
     (case object e of
        SessionBlockObj _ _ _ _ \<Rightarrow> SESSION_BLOCK
      | ContributionObj _ _ _ \<Rightarrow> CONTRIBUTION
      | BreakObj _ _ _ \<Rightarrow> BREAK)"

text \<open>
  An event. \<open>event_start_dt\<close> and \<open>event_end_dt\<close> are the instants of
  \<^verbatim>\<open>start_dt\<close> and \<^verbatim>\<open>end_dt\<close>, \<open>tzinfo\<close> is the timezone of the event, and
  \<open>start_dt_tzinfo\<close> is the zone the attribute \<^verbatim>\<open>start_dt\<close> itself is expressed in
  (UTC for an event loaded from the data store), which \<^verbatim>\<open>obj.start_dt.date()\<close> reads.
\<close>

record Event =
  event_id :: nat
  event_start_dt :: instant
  event_end_dt :: instant
  start_dt_tzinfo :: timezone
  tzinfo :: timezone
  timetable_entries :: "TimetableEntry list"

record SessionBlock =
  block_id :: nat
  timetable_entry :: TimetableEntry

text \<open>
  The argument \<^verbatim>\<open>obj\<close> of the resolver is dispatched on with \<^verbatim>\<open>isinstance\<close>:
  an event, a session block, or anything else.
\<close>

datatype container = EventC Event | SessionBlockC SessionBlock | OtherC

datatype error = ValueError string | TypeError string | IndexError string

definition start_dt_local_date :: "Event \<Rightarrow> date" where
  "start_dt_local_date ev = local_date (tzinfo ev) (event_start_dt ev)"

definition end_dt_local_date :: "Event \<Rightarrow> date" where
  "end_dt_local_date ev = local_date (tzinfo ev) (event_end_dt ev)"

text \<open>\<^verbatim>\<open>obj.start_dt.date()\<close>: the date of the start in the zone the attribute carries.\<close>

definition start_dt_date :: "Event \<Rightarrow> date" where
  "start_dt_date ev = local_date (start_dt_tzinfo ev) (event_start_dt ev)"

section \<open>Interval/Fit Resolver\<close>

text \<open>
  Python's \<^verbatim>\<open>max(entries, key=...)\<close> on a non-empty list: the first element with the
  greatest key (a later element replaces the best one only when its key is strictly greater).
\<close>

fun max_key :: "('a \<Rightarrow> 'k::linorder) \<Rightarrow> 'a \<Rightarrow> 'a list \<Rightarrow> 'a" where
  "max_key key best [] = best"
| "max_key key best (x # xs) = max_key key (if key best < key x then x else best) xs"

text \<open>\<^verbatim>\<open>max(entries, key=attrgetter('end_dt')).end_dt if entries else None\<close>\<close>

definition latest_end_dt :: "TimetableEntry list \<Rightarrow> instant option" where
  "latest_end_dt entries =
     (case entries of [] \<Rightarrow> None | e # es \<Rightarrow> Some (end_dt (max_key end_dt e es)))"

text \<open>The entries the event query selects: top-level and starting on the local day.\<close>

definition entries_on_day :: "Event \<Rightarrow> date \<Rightarrow> TimetableEntry list" where
  "entries_on_day ev day =
     filter (\<lambda>e. parent_id e = None \<and> local_date (tzinfo ev) (start_dt e) = day)
       (timetable_entries ev)"

definition find_latest_entry_end_dt :: "container \<Rightarrow> date option \<Rightarrow> error + instant option" where
  "find_latest_entry_end_dt obj day =
     (case obj of
        EventC ev \<Rightarrow>
          (case day of
             None \<Rightarrow> Inl (ValueError ''No day specified for event.'')
           | Some d \<Rightarrow>
               if \<not> (start_dt_local_date ev \<le> d \<and> d \<le> end_dt_local_date ev)
               then Inl (ValueError ''Day out of event bounds.'')
               else Inr (latest_end_dt (entries_on_day ev d)))
      | SessionBlockC blk \<Rightarrow>
          (case day of
             Some d \<Rightarrow> Inl (ValueError ''Day specified for session block.'')
           | None \<Rightarrow> Inr (latest_end_dt (children (timetable_entry blk))))
      | OtherC \<Rightarrow> Inl (TypeError ''Invalid object type''))"

text \<open>
  The first part of \<^verbatim>\<open>find_next_start_dt\<close>: validation of the arguments and the bounds
  \<^verbatim>\<open>(earliest_dt, latest_dt)\<close>. The test that selects \<^verbatim>\<open>latest_dt\<close> is
  \<^verbatim>\<open>obj.start_dt.date() == day\<close>, as the source has it.
\<close>

definition find_next_start_dt_bounds :: "container \<Rightarrow> date option \<Rightarrow> error + (instant \<times> instant)" where
  "find_next_start_dt_bounds obj day =
     (case obj of
        EventC ev \<Rightarrow>
          (case day of
             None \<Rightarrow> Inl (ValueError ''No day specified for event.'')
           | Some d \<Rightarrow>
               if \<not> (start_dt_local_date ev \<le> d \<and> d \<le> end_dt_local_date ev)
               then Inl (ValueError ''Day out of event bounds.'')
               else
                 let earliest_dt = (if start_dt_local_date ev = d then event_start_dt ev
                                    else replace_hour_8 (tzinfo ev) d);
                     latest_dt = (if start_dt_date ev = d then event_end_dt ev
                                  else get_day_end (tzinfo ev) d)
                 in Inr (earliest_dt, latest_dt))
      | SessionBlockC blk \<Rightarrow>
          (case day of
             Some d \<Rightarrow> Inl (ValueError ''Day specified for session block.'')
           | None \<Rightarrow> Inr (start_dt (timetable_entry blk), end_dt (timetable_entry blk)))
      | OtherC \<Rightarrow> Inl (TypeError ''Invalid object type''))"

definition find_next_start_dt ::
    "timedelta \<Rightarrow> container \<Rightarrow> date option \<Rightarrow> bool \<Rightarrow> error + instant option" where
  "find_next_start_dt duration obj day force =
     (case find_next_start_dt_bounds obj day of
        Inl err \<Rightarrow> Inl err
      | Inr (earliest_dt, latest_dt) \<Rightarrow>
          let max_duration = latest_dt - earliest_dt in
          if duration > max_duration then Inr (if force then Some earliest_dt else None)
          else
            (case find_latest_entry_end_dt obj day of
               Inl err \<Rightarrow> Inl err
             | Inr found \<Rightarrow>
                 let start_dt0 = (case found of Some t \<Rightarrow> t | None \<Rightarrow> earliest_dt);
                     end_dt0 = start_dt0 + duration
                 in Inr (Some (if end_dt0 > latest_dt then latest_dt - duration else start_dt0))))"

section \<open>Cascade Shifter\<close>

text \<open>
  Modelled from the spec: \<^verbatim>\<open>TimetableEntry.move\<close> is not among the sources. The spec
  says that the start of a moved entry is set to the new start and that its end follows,
  the entry keeping its own duration.
\<close>

definition move :: "TimetableEntry \<Rightarrow> instant \<Rightarrow> TimetableEntry" where
  "move e new_start_dt =
     TimetableEntry (entry_id e) new_start_dt (new_start_dt + (end_dt e - start_dt e))
       (parent_id e) (object e) (children e)"

text \<open>
  A query is the list of its criteria. \<^verbatim>\<open>Query.filter\<close> does not change the query it
  is called on: it returns a new query with one more criterion. \<^verbatim>\<open>Query.all\<close>
  returns the rows meeting every criterion; a row is returned as a reference (its position
  in the table), so that changing a returned object changes the row.
\<close>

type_synonym query = "(TimetableEntry \<Rightarrow> bool) list"

definition query_filter :: "query \<Rightarrow> (TimetableEntry \<Rightarrow> bool) \<Rightarrow> query" where
  "query_filter q criterion = q @ [criterion]"

definition query_all :: "TimetableEntry list \<Rightarrow> query \<Rightarrow> nat list" where
  "query_all rows q = filter (\<lambda>i. list_all (\<lambda>criterion. criterion (rows ! i)) q) [0..<length rows]"

text \<open>\<^verbatim>\<open>TimetableEntry.session_block.has(session_id=sid)\<close>\<close>

definition session_block_has_session_id :: "TimetableEntry \<Rightarrow> nat \<Rightarrow> bool" where
  "session_block_has_session_id e sid =
     (case object e of
        SessionBlockObj _ _ _ s \<Rightarrow> session_id s = sid
      | ContributionObj _ _ _ \<Rightarrow> False
      | BreakObj _ _ _ \<Rightarrow> False)"

text \<open>
  \<^verbatim>\<open>shift_following_entries(entry, shift, session_)\<close>. The first argument is the table
  \<^verbatim>\<open>entry.siblings_query\<close> ranges over: the siblings of \<open>entry\<close> (the property is not
  among the sources). The result is the returned value (\<open>None\<close> is Python's \<^verbatim>\<open>None\<close>,
  returned when the function body ends without a \<^verbatim>\<open>return\<close>) and the siblings after
  the call. The query built under \<^verbatim>\<open>if session_ and not entry.parent\<close> is bound to
  nothing in the source; \<open>unused\<close> holds it here.
\<close>

definition shift_following_entries ::
    "TimetableEntry list \<Rightarrow> TimetableEntry \<Rightarrow> timedelta \<Rightarrow> Session option
       \<Rightarrow> TimetableEntry list option \<times> TimetableEntry list" where
  "shift_following_entries siblings entry shift session_arg =
     (let query = query_filter [] (\<lambda>e. start_dt e \<ge> end_dt entry);
          unused = (case session_arg of
                      Some s \<Rightarrow>
                        if parent_id entry = None
                        then query_filter query
                               (\<lambda>e. entry_type e = SESSION_BLOCK
                                     \<and> session_block_has_session_id e (session_id s))
                        else query
                    | None \<Rightarrow> query);
          entries = query_all siblings query
      in if entries = [] then (Some [], siblings)
         else (None,
               fold (\<lambda>i rows. rows[i := move (rows ! i) (start_dt (rows ! i) + shift)])
                 entries siblings))"

section \<open>Time change notifications\<close>

text \<open>
  A changed object is an event, or an object that has a timetable entry (a session block,
  a contribution or a break), given by that entry: \<open>ScheduledO te\<close> is the object whose
  \<^verbatim>\<open>timetable_entry\<close> is \<open>te\<close>, that is \<open>object te\<close>. A change record maps a
  field name to the pair of the old and the new value.
\<close>

datatype changed_object = EventO nat | ScheduledO TimetableEntry

type_synonym change = "string \<rightharpoonup> (instant \<times> instant)"

text \<open>
  The two \<^verbatim>\<open>continue\<close> tests at the head of the loop body.
\<close>

definition skipped :: "TimetableEntry option \<Rightarrow> changed_object \<Rightarrow> bool" where
  "skipped entry obj =
     (case entry of
        None \<Rightarrow> False
      | Some en \<Rightarrow>
          (case obj of
             EventO _ \<Rightarrow> False
           | ScheduledO te \<Rightarrow> object en = object te \<or> te \<in> set (children en)))"

text \<open>
  The message template and the new time chosen for one object; \<open>Inr None\<close> when
  \<^verbatim>\<open>msg\<close> stays \<^verbatim>\<open>None\<close>.
\<close>

definition change_message :: "changed_object \<Rightarrow> change \<Rightarrow> error + (string \<times> instant) option" where
  "change_message obj change =
     (case obj of
        EventO _ \<Rightarrow>
          (case change ''start_dt'' of
             Some (old, new) \<Rightarrow> Inr (Some (''Event start time changed to '', new))
           | None \<Rightarrow>
               (case change ''end_dt'' of
                  Some (old, new) \<Rightarrow> Inr (Some (''Event end time changed to '', new))
                | None \<Rightarrow> Inl (ValueError ''Invalid change in event.'')))
      | ScheduledO te \<Rightarrow>
          if entry_type te = SESSION_BLOCK then
            (case change ''start_dt'' of
               Some (old, new) \<Rightarrow> Inr (Some (''Session block start time changed to '', new))
             | None \<Rightarrow>
                 (case change ''end_dt'' of
                    Some (old, new) \<Rightarrow> Inr (Some (''Session block end time changed to '', new))
                  | None \<Rightarrow> Inl (ValueError ''Invalid change in session block.'')))
          else Inr None)"

text \<open>
  The loop over \<^verbatim>\<open>changes.items()\<close>, with the notifications collected so far.
  \<open>format_time\<close> stands for \<^verbatim>\<open>indico.util.date_time.format_time\<close>, which is not among
  the sources; the formatted time replaces the placeholder that ends each template.
\<close>

fun notifications_loop ::
    "(instant \<Rightarrow> timezone \<Rightarrow> string) \<Rightarrow> timezone \<Rightarrow> TimetableEntry option
       \<Rightarrow> (changed_object \<times> change) list \<Rightarrow> string list \<Rightarrow> error + string list" where
  "notifications_loop format_time tz entry [] notifications = Inr notifications"
| "notifications_loop format_time tz entry ((obj, change) # rest) notifications =
     (if skipped entry obj then notifications_loop format_time tz entry rest notifications
      else
        (case change_message obj change of
           Inl err \<Rightarrow> Inl err
         | Inr None \<Rightarrow> notifications_loop format_time tz entry rest notifications
         | Inr (Some (msg, new_time)) \<Rightarrow>
             notifications_loop format_time tz entry rest
               (notifications @ [msg @ format_time new_time tz])))"

definition get_time_changes_notifications ::
    "(instant \<Rightarrow> timezone \<Rightarrow> string) \<Rightarrow> (changed_object \<times> change) list \<Rightarrow> timezone
       \<Rightarrow> TimetableEntry option \<Rightarrow> error + string list" where
  "get_time_changes_notifications format_time changes tz entry =
     notifications_loop format_time tz entry changes []"

section \<open>Nested Timetable Builder\<close>








section \<open>Location conditions\<close>

definition get_nested_timetable_location_conditions ::
    "TimetableEntry list \<Rightarrow> bool \<times> (nat \<rightharpoonup> bool)" where
  "get_nested_timetable_location_conditions entries =
     (let show_siblings_location =
            list_ex (\<lambda>entry. \<not> inherit_location (object entry)
                             \<or> (entry_type entry = SESSION_BLOCK
                                \<and> inherit_location (object entry)
                                \<and> \<not> session_inherit_location (session (object entry))))
              entries;
          show_children_location =
            fold (\<lambda>entry d. d(entry_id entry \<mapsto>
                               \<not> list_all (\<lambda>child. inherit_location (object child)) (children entry)))
              entries Map.empty
      in (show_siblings_location, show_children_location))"

section \<open>Category Timetable Aggregator\<close>

text \<open>
  The arguments \<^verbatim>\<open>start_dt\<close> and \<^verbatim>\<open>end_dt\<close> are aware datetimes: an instant and
  the timezone they are expressed in. \<^verbatim>\<open>dt.astimezone(utc)\<close> is the instant,
  \<^verbatim>\<open>dt.date()\<close> the date in the datetime's own zone.
\<close>

record datetime =
  dt_instant :: instant
  dt_tzinfo :: timezone

definition dt_date :: "datetime \<Rightarrow> date" where
  "dt_date dt = local_date (dt_tzinfo dt) (dt_instant dt)"

text \<open>
  Modelled from the spec: \<^verbatim>\<open>iterdays\<close> of \<^verbatim>\<open>indico.util.date_time\<close> is not among
  the sources; it yields every calendar day from the first to the last, both included, and
  none when the first is after the last.
\<close>

definition iterdays :: "date \<Rightarrow> date \<Rightarrow> date list" where
  "iterdays first_day last_day = [first_day..last_day]"

text \<open>
  The rows of the data store as the aggregator reads them: a timetable entry, and a session
  block, a contribution and a break, each joined with its timetable entry (the block also
  with its session).
\<close>

record entry_row =
  row_entry_id :: nat
  row_event_id :: nat
  row_start_dt :: instant

record block_row =
  block_row_id :: nat
  block_session_event_id :: nat
  block_session_is_deleted :: bool
  block_timetable_entry :: entry_row

record contribution_row =
  contribution_row_id :: nat
  contribution_event_id :: nat
  contribution_is_deleted :: bool
  contribution_timetable_entry :: entry_row

record break_row =
  break_row_id :: nat
  break_timetable_entry :: entry_row

text \<open>
  The data store as one call sees it. \<open>event_rows\<close> are the rows
  \<^verbatim>\<open>(Event.id, TimetableEntry.start_dt)\<close> that the query of \<^verbatim>\<open>_query_events\<close> yields
  for the categories and the interval of the call, after the visibility filter of
  \<^verbatim>\<open>from_categ\<close>: a row with a start for each start of an entry of the event in the
  interval, one row without a start for an event that has no such entry. The other fields
  are the tables the later queries select from.
\<close>

record data_store =
  event_rows :: "(nat \<times> instant option) list"
  events_table :: "Event list"
  blocks_table :: "block_row list"
  contributions_table :: "contribution_row list"
  breaks_table :: "break_row list"

text \<open>
  A \<^verbatim>\<open>dict\<close> is the list of its items in insertion order. \<open>dd_get\<close> reads a
  \<^verbatim>\<open>defaultdict\<close>, \<open>dd_modify dflt g k d\<close> is \<^verbatim>\<open>d[k] = g(d[k])\<close> on a
  \<^verbatim>\<open>defaultdict\<close> whose missing values are \<open>dflt\<close>; appending to \<^verbatim>\<open>d[k]\<close> is
  \<open>dd_modify [] (\<lambda>l. l @ [x]) k d\<close>.
\<close>

definition dd_get :: "'v \<Rightarrow> 'k \<Rightarrow> ('k \<times> 'v) list \<Rightarrow> 'v" where
  "dd_get dflt k d = (case map_of d k of Some v \<Rightarrow> v | None \<Rightarrow> dflt)"

fun dd_modify :: "'v \<Rightarrow> ('v \<Rightarrow> 'v) \<Rightarrow> 'k \<Rightarrow> ('k \<times> 'v) list \<Rightarrow> ('k \<times> 'v) list" where
  "dd_modify dflt g k [] = [(k, g dflt)]"
| "dd_modify dflt g k ((k', v) # rest) =
     (if k' = k then (k', g v) # rest else (k', v) # dd_modify dflt g k rest)"

definition dd_append :: "'k \<Rightarrow> 'a \<Rightarrow> ('k \<times> 'a list) list \<Rightarrow> ('k \<times> 'a list) list" where
  "dd_append k x d = dd_modify [] (\<lambda>l. l @ [x]) k d"

text \<open>
  \<^verbatim>\<open>items\<close>: for each event id either the starts of its entries by local date, or
  \<^verbatim>\<open>None\<close> for an event without a timetable in the interval. Subscripting
  \<^verbatim>\<open>items[eid]\<close> when it is \<^verbatim>\<open>None\<close> raises \<^verbatim>\<open>TypeError\<close>.
\<close>

type_synonym items = "(nat \<times> (date \<times> instant list) list option) list"

fun collect_items :: "timezone \<Rightarrow> (nat \<times> instant option) list \<Rightarrow> items \<Rightarrow> error + items" where
  "collect_items tz [] items = Inr items"
| "collect_items tz ((eid, tt_start_dt) # rows) items =
     (case tt_start_dt of
        Some t \<Rightarrow>
          (case dd_get (Some []) eid items of
             None \<Rightarrow> Inl (TypeError ''NoneType object is not subscriptable'')
           | Some by_date \<Rightarrow>
               collect_items tz rows
                 (dd_modify (Some []) (\<lambda>v. Some (dd_append (local_date tz t) t by_date)) eid items))
      | None \<Rightarrow> collect_items tz rows (dd_modify (Some []) (\<lambda>v. None) eid items))"

text \<open>
  The loop over the days of an event without a timetable: a slot on the day the event
  starts, an ongoing event on every other day.
\<close>

definition days_loop ::
    "Event \<Rightarrow> date \<Rightarrow> date list
       \<Rightarrow> (date \<times> (instant \<times> Event) list) list \<times> Event list
       \<Rightarrow> (date \<times> (instant \<times> Event) list) list \<times> Event list" where
  "days_loop e local_start_dt days state =
     fold (\<lambda>day (scheduled_events, ongoing_events).
             if day = local_start_dt
             then (dd_append day (event_start_dt e, e) scheduled_events, ongoing_events)
             else (scheduled_events, ongoing_events @ [e]))
       days state"

text \<open>
  The loop over \<^verbatim>\<open>items[e.id].items()\<close>; \<^verbatim>\<open>start_dts[0]\<close> raises
  \<^verbatim>\<open>IndexError\<close> on an empty list.
\<close>

fun starts_loop ::
    "Event \<Rightarrow> (date \<times> instant list) list \<Rightarrow> (date \<times> (instant \<times> Event) list) list
       \<Rightarrow> error + (date \<times> (instant \<times> Event) list) list" where
  "starts_loop e [] scheduled_events = Inr scheduled_events"
| "starts_loop e ((start_d, start_dts) # rest) scheduled_events =
     (case start_dts of
        [] \<Rightarrow> Inl (IndexError ''list index out of range'')
      | t # ts \<Rightarrow> starts_loop e rest (dd_append start_d (t, e) scheduled_events))"

text \<open>
  The loop over the events of the second query. The state is
  \<^verbatim>\<open>(scheduled_events, ongoing_events, events)\<close>.
\<close>

fun events_loop ::
    "datetime \<Rightarrow> datetime \<Rightarrow> timezone \<Rightarrow> bool \<Rightarrow> (Event \<Rightarrow> bool) \<Rightarrow> items \<Rightarrow> Event list
       \<Rightarrow> (date \<times> (instant \<times> Event) list) list \<times> Event list \<times> Event list
       \<Rightarrow> error + (date \<times> (instant \<times> Event) list) list \<times> Event list \<times> Event list" where
  "events_loop start_dt' end_dt' tz grouped includible items [] state = Inr state"
| "events_loop start_dt' end_dt' tz grouped includible items (e # es)
       (scheduled_events, ongoing_events, events) =
     (if \<not> includible e
      then events_loop start_dt' end_dt' tz grouped includible items es
             (scheduled_events, ongoing_events, events)
      else if grouped then
        (let local_start_dt = local_date tz (event_start_dt e);
             local_end_dt = local_date tz (event_end_dt e)
         in case dd_get (Some []) (event_id e) items of
              None \<Rightarrow>
                (case days_loop e local_start_dt
                        (iterdays (max (dt_date start_dt') local_start_dt)
                                  (min (dt_date end_dt') local_end_dt))
                        (scheduled_events, ongoing_events) of
                   (scheduled_events', ongoing_events') \<Rightarrow>
                     events_loop start_dt' end_dt' tz grouped includible items es
                       (scheduled_events', ongoing_events', events))
            | Some by_date \<Rightarrow>
                (case starts_loop e by_date scheduled_events of
                   Inl err \<Rightarrow> Inl err
                 | Inr scheduled_events' \<Rightarrow>
                     events_loop start_dt' end_dt' tz grouped includible items es
                       (scheduled_events', ongoing_events, events)))
      else events_loop start_dt' end_dt' tz grouped includible items es
             (scheduled_events, ongoing_events, events @ [e]))"

text \<open>The objects of the detail queries: a session block, a contribution or a break.\<close>

datatype scheduled = Block block_row | Contrib contribution_row | Brk break_row

text \<open>
  The result. In both modes it has the keys \<^verbatim>\<open>'events'\<close> and \<^verbatim>\<open>'ongoing_events'\<close>
  and one key for each event id with details; under an event id the grouped mode has the keys
  \<^verbatim>\<open>'blocks'\<close>, \<^verbatim>\<open>'contribs'\<close> and \<^verbatim>\<open>'breaks'\<close>, each a dictionary from a date to
  a list of pairs of a timetable entry and its object, and the ungrouped mode has the keys
  \<^verbatim>\<open>'blocks'\<close>, \<^verbatim>\<open>'contributions'\<close> and \<^verbatim>\<open>'breaks'\<close>, each a list of objects.
\<close>

type_synonym grouped_details =
  "(nat \<times> (string \<times> (date \<times> (entry_row \<times> scheduled) list) list) list) list"

type_synonym flat_details = "(nat \<times> (string \<times> scheduled list) list) list"

datatype category_timetable =
    Grouped "(date \<times> (instant \<times> Event) list) list" "Event list" grouped_details
  | Flat "Event list" "Event list" flat_details

text \<open>\<^verbatim>\<open>dates_overlap\<close>: the entry starts within the interval.\<close>

definition dates_overlap :: "instant \<Rightarrow> instant \<Rightarrow> entry_row \<Rightarrow> bool" where
  "dates_overlap day_start day_end t \<longleftrightarrow> row_start_dt t \<ge> day_start \<and> row_start_dt t \<le> day_end"

text \<open>The three detail queries.\<close>

definition query_blocks :: "nat list \<Rightarrow> (entry_row \<Rightarrow> bool) \<Rightarrow> block_row list \<Rightarrow> block_row list" where
  "query_blocks event_ids overlap table =
     filter (\<lambda>b. \<not> block_session_is_deleted b \<and> block_session_event_id b \<in> set event_ids
                 \<and> overlap (block_timetable_entry b)) table"

definition query_contributions ::
    "nat list \<Rightarrow> (entry_row \<Rightarrow> bool) \<Rightarrow> contribution_row list \<Rightarrow> contribution_row list" where
  "query_contributions event_ids overlap table =
     filter (\<lambda>c. contribution_event_id c \<in> set event_ids
                 \<and> overlap (contribution_timetable_entry c) \<and> \<not> contribution_is_deleted c) table"

definition query_breaks :: "nat list \<Rightarrow> (entry_row \<Rightarrow> bool) \<Rightarrow> break_row list \<Rightarrow> break_row list" where
  "query_breaks event_ids overlap table =
     filter (\<lambda>b. row_event_id (break_timetable_entry b) \<in> set event_ids
                 \<and> overlap (break_timetable_entry b)) table"

text \<open>
  \<^verbatim>\<open>result[eid][key][start_date].append((entry, obj))\<close> of the grouped mode and
  \<^verbatim>\<open>result[eid][key].append(obj)\<close> of the ungrouped mode.
\<close>

definition add_grouped ::
    "timezone \<Rightarrow> string \<Rightarrow> nat \<Rightarrow> entry_row \<Rightarrow> scheduled \<Rightarrow> grouped_details \<Rightarrow> grouped_details" where
  "add_grouped tz key eid entry obj result =
     dd_modify [] (dd_modify [] (dd_append (local_date tz (row_start_dt entry)) (entry, obj)) key)
       eid result"

definition add_flat :: "string \<Rightarrow> nat \<Rightarrow> scheduled \<Rightarrow> flat_details \<Rightarrow> flat_details" where
  "add_flat key eid obj result = dd_modify [] (dd_append key obj) eid result"

definition grouped_details_of ::
    "timezone \<Rightarrow> block_row list \<Rightarrow> contribution_row list \<Rightarrow> break_row list \<Rightarrow> grouped_details" where
  "grouped_details_of tz blocks contribs breaks =
     fold (\<lambda>b. add_grouped tz ''breaks'' (row_event_id (break_timetable_entry b))
                  (break_timetable_entry b) (Brk b)) breaks
       (fold (\<lambda>c. add_grouped tz ''contribs'' (contribution_event_id c)
                     (contribution_timetable_entry c) (Contrib c)) contribs
          (fold (\<lambda>b. add_grouped tz ''blocks'' (block_session_event_id b)
                        (block_timetable_entry b) (Block b)) blocks []))"

definition flat_details_of ::
    "block_row list \<Rightarrow> contribution_row list \<Rightarrow> break_row list \<Rightarrow> flat_details" where
  "flat_details_of blocks contribs breaks =
     fold (\<lambda>b. add_flat ''breaks'' (row_event_id (break_timetable_entry b)) (Brk b)) breaks
       (fold (\<lambda>c. add_flat ''contributions'' (contribution_event_id c) (Contrib c)) contribs
          (fold (\<lambda>b. add_flat ''blocks'' (block_session_event_id b) (Block b)) blocks []))"

text \<open>
  \<^verbatim>\<open>get_category_timetable\<close>. The arguments \<^verbatim>\<open>categ_ids\<close> and \<^verbatim>\<open>from_categ\<close>
  only reach the first query, whose rows are in the data store.
\<close>

definition get_category_timetable ::
    "data_store \<Rightarrow> datetime \<Rightarrow> datetime \<Rightarrow> string \<Rightarrow> timezone \<Rightarrow> bool \<Rightarrow> (Event \<Rightarrow> bool)
       \<Rightarrow> error + category_timetable" where
  "get_category_timetable db start_dt' end_dt' detail_level tz grouped includible =
     (let day_start = dt_instant start_dt';
          day_end = dt_instant end_dt';
          overlap = dates_overlap day_start day_end
      in case collect_items tz (event_rows db) [] of
           Inl err \<Rightarrow> Inl err
         | Inr items \<Rightarrow>
             let event_ids = map fst items;
                 query = filter (\<lambda>e. event_id e \<in> set event_ids) (events_table db)
             in case events_loop start_dt' end_dt' tz grouped includible items query ([], [], []) of
                  Inl err \<Rightarrow> Inl err
                | Inr (scheduled_events, ongoing_events, events) \<Rightarrow>
                    let blocks = (if detail_level \<noteq> ''event''
                                  then query_blocks event_ids overlap (blocks_table db) else []);
                        contribs = (if detail_level = ''contribution''
                                    then query_contributions event_ids overlap (contributions_table db)
                                    else []);
                        breaks = (if detail_level = ''contribution''
                                  then query_breaks event_ids overlap (breaks_table db) else [])
                    in if grouped
                       then Inr (Grouped scheduled_events ongoing_events
                                   (grouped_details_of tz blocks contribs breaks))
                       else Inr (Flat events ongoing_events
                                   (flat_details_of blocks contribs breaks)))"

text \<open>
  The underlying objects a result contains: the events (scheduled or ongoing), and the
  session blocks, contributions and breaks under the event ids.
\<close>

fun result_events :: "category_timetable \<Rightarrow> Event set" where
  "result_events (Grouped scheduled_events ongoing_events details) =
     set (map snd (concat (map snd scheduled_events))) \<union> set ongoing_events"
| "result_events (Flat events ongoing_events details) = set events \<union> set ongoing_events"


text \<open>
  An event has a day in the interval when one of its local days lies between the dates of
  \<^verbatim>\<open>start_dt\<close> and \<^verbatim>\<open>end_dt\<close>; it is without timetable when \<^verbatim>\<open>items\<close> holds
  \<^verbatim>\<open>None\<close> for it.
\<close>

definition has_day_in_interval :: "datetime \<Rightarrow> datetime \<Rightarrow> timezone \<Rightarrow> Event \<Rightarrow> bool" where
  "has_day_in_interval start_dt' end_dt' tz e \<longleftrightarrow>
     max (dt_date start_dt') (local_date tz (event_start_dt e))
       \<le> min (dt_date end_dt') (local_date tz (event_end_dt e))"

definition without_timetable :: "data_store \<Rightarrow> timezone \<Rightarrow> Event \<Rightarrow> bool" where
  "without_timetable db tz e \<longleftrightarrow>
     (case collect_items tz (event_rows db) [] of
        Inl err \<Rightarrow> False
      | Inr items \<Rightarrow> dd_get (Some []) (event_id e) items = None)"

section \<open>Notions used to state the properties\<close>

text \<open>
  A changed object can give a notification when it is an event or a session block; a change
  record lacks times when it has neither a \<^verbatim>\<open>start_dt\<close> nor an \<^verbatim>\<open>end_dt\<close> entry.
  \<open>messages_of\<close> lists, in the order of the changes, the messages of the objects that are
  neither skipped nor of another type.
\<close>

definition notifiable :: "changed_object \<Rightarrow> bool" where
  "notifiable obj = (case obj of EventO _ \<Rightarrow> True | ScheduledO te \<Rightarrow> entry_type te = SESSION_BLOCK)"

definition lacks_times :: "change \<Rightarrow> bool" where
  "lacks_times change \<longleftrightarrow> change ''start_dt'' = None \<and> change ''end_dt'' = None"

definition messages_of ::
    "(instant \<Rightarrow> timezone \<Rightarrow> string) \<Rightarrow> timezone \<Rightarrow> TimetableEntry option
       \<Rightarrow> (changed_object \<times> change) list \<Rightarrow> string list" where
  "messages_of format_time tz entry changes =
     concat (map (\<lambda>(obj, change).
                    if skipped entry obj \<or> \<not> notifiable obj then []
                    else (case change_message obj change of
                            Inr (Some (msg, new_time)) \<Rightarrow> [msg @ format_time new_time tz]
                          | _ \<Rightarrow> []))
             changes)"













text \<open>
  The bounds of an event on a day as the spec words them: the earliest bound is the start of
  the event on its first local day and 08:00 local time on any other day; the latest bound is
  the end of the event on its last local day and the end of the local day on any other day.
\<close>

definition spec_bounds :: "Event \<Rightarrow> date \<Rightarrow> instant \<times> instant" where
  "spec_bounds ev d =
     (if d = start_dt_local_date ev then event_start_dt ev else replace_hour_8 (tzinfo ev) d,
      if d = end_dt_local_date ev then event_end_dt ev else get_day_end (tzinfo ev) d)"

section \<open>Scenarios\<close>

text \<open>
  A one-day workshop from 09:00 to 17:00 UTC on day 0 with one contribution from 10:00 to
  10:30; a conference from day 0, 09:00, to day 2, 17:00, with a contribution ending at
  16:30 on the last day; a one-day event whose last entry ends half an hour after the event.
\<close>

definition workshop :: Event where
  "workshop = \<lparr> event_id = 1, event_start_dt = 9 * hour, event_end_dt = 17 * hour,
     start_dt_tzinfo = utc, tzinfo = utc,
     timetable_entries =
       [TimetableEntry 1 (10 * hour) (10 * hour + 30 * minute) None
          (ContributionObj 1 ''Talk'' True) []] \<rparr>"

definition conference :: Event where
  "conference = \<lparr> event_id = 2, event_start_dt = 9 * hour,
     event_end_dt = 2 * day_length + 17 * hour, start_dt_tzinfo = utc, tzinfo = utc,
     timetable_entries =
       [TimetableEntry 1 (2 * day_length + 16 * hour) (2 * day_length + 16 * hour + 30 * minute) None
          (ContributionObj 1 ''Closing'' True) []] \<rparr>"


text \<open>Two sessions, a top-level entry from 10:00 to 10:30 and its four siblings.\<close>

definition plenary :: Session where
  "plenary = \<lparr> session_id = 7, code = ''PL'', friendly_id = 1, session_inherit_location = True \<rparr>"

definition posters :: Session where
  "posters = \<lparr> session_id = 8, code = ''PO'', friendly_id = 2, session_inherit_location = False \<rparr>"

definition trigger :: TimetableEntry where
  "trigger = TimetableEntry 1 (10 * hour) (10 * hour + 30 * minute) None
               (SessionBlockObj 1 ''Opening'' True plenary) []"

definition morning_siblings :: "TimetableEntry list" where
  "morning_siblings =
     [TimetableEntry 2 (9 * hour) (9 * hour + 30 * minute) None (BreakObj 2 ''Coffee'' True) [],
      TimetableEntry 3 (11 * hour) (11 * hour + 15 * minute) None (ContributionObj 3 ''Talk'' True) [],
      TimetableEntry 4 (12 * hour) (13 * hour) None (SessionBlockObj 4 ''Posters A'' True posters) [],
      TimetableEntry 5 (14 * hour) (15 * hour) None (SessionBlockObj 5 ''Plenary B'' True plenary) []]"

text \<open>A contribution entry, a clock that prints one time, and two change mappings.\<close>

definition talk_entry :: TimetableEntry where
  "talk_entry = TimetableEntry 3 (11 * hour) (11 * hour + 15 * minute) None
                  (ContributionObj 3 ''Talk'' True) []"

definition clock :: "instant \<Rightarrow> timezone \<Rightarrow> string" where
  "clock t tz = (if t = 11 * hour then ''11:00'' else ''??:??'')"

definition moved_event :: "(changed_object \<times> change) list" where
  "moved_event =
     [(EventO 1, [''start_dt'' \<mapsto> (9 * hour, 11 * hour)]),
      (ScheduledO talk_entry, Map.empty)]"


definition programme :: "TimetableEntry list" where
  "programme =
     [TimetableEntry 10 (9 * hour) (10 * hour) None (SessionBlockObj 10 ''Plenary A'' True plenary)
        [TimetableEntry 12 (9 * hour) (9 * hour + 30 * minute) (Some 10)
           (ContributionObj 12 ''Keynote'' False) []],
      TimetableEntry 11 (10 * hour) (10 * hour + 30 * minute) None (BreakObj 11 ''Coffee'' True) []]"

text \<open>
  A seminar from 12:00 to 13:00 UTC on day 0 without timetable entries, the store of a call
  that finds it, and the store of a call that finds the workshop and the seminar. The
  interval of the first call is day 1 in a zone fourteen hours east of UTC (10:00 on day 0 to
  09:59 on day 1, UTC); that of the second is day 0 in UTC. \<open>include_all\<close> is the default
  \<^verbatim>\<open>includible\<close>.
\<close>

definition include_all :: "Event \<Rightarrow> bool" where
  "include_all item = True"

definition seminar :: Event where
  "seminar = \<lparr> event_id = 4, event_start_dt = 12 * hour, event_end_dt = 13 * hour,
     start_dt_tzinfo = utc, tzinfo = utc,
     timetable_entries = [] \<rparr>"

definition talk_row :: contribution_row where
  "talk_row = \<lparr> contribution_row_id = 1, contribution_event_id = 1, contribution_is_deleted = False,
     contribution_timetable_entry = \<lparr> row_entry_id = 1, row_event_id = 1, row_start_dt = 10 * hour \<rparr> \<rparr>"

definition seminar_store :: data_store where
  "seminar_store = \<lparr> event_rows = [(4, None)], events_table = [seminar],
     blocks_table = [], contributions_table = [], breaks_table = [] \<rparr>"

definition day_store :: data_store where
  "day_store = \<lparr> event_rows = [(1, Some (10 * hour)), (4, None)],
     events_table = [workshop, seminar],
     blocks_table = [], contributions_table = [talk_row], breaks_table = [] \<rparr>"

definition kiritimati_day :: "datetime \<times> datetime" where
  "kiritimati_day =
     (\<lparr> dt_instant = 10 * hour, dt_tzinfo = fixed_offset (14 * hour) \<rparr>,
      \<lparr> dt_instant = day_length + 9 * hour + 59 * minute, dt_tzinfo = fixed_offset (14 * hour) \<rparr>)"

definition utc_day :: "datetime \<times> datetime" where
  "utc_day =
     (\<lparr> dt_instant = 0, dt_tzinfo = utc \<rparr>,
      \<lparr> dt_instant = 23 * hour + 59 * minute, dt_tzinfo = utc \<rparr>)"

section \<open>Properties of the Interval/Fit Resolver\<close>

lemmas time_defs = hour_def minute_def day_length_def utc_def fixed_offset_def start_dt_date_def
  replace_hour_8_def start_dt_local_date_def end_dt_local_date_def





lemma find_next_start_dt_bounds_cases:
  "find_next_start_dt_bounds (SessionBlockC blk) None
     = Inr (start_dt (timetable_entry blk), end_dt (timetable_entry blk))"
  "start_dt_local_date ev \<le> d \<Longrightarrow> d \<le> end_dt_local_date ev \<Longrightarrow>
   find_next_start_dt_bounds (EventC ev) (Some d)
     = Inr (if start_dt_local_date ev = d then event_start_dt ev
            else get_day_start (tzinfo ev) d + 8 * hour,
            if start_dt_date ev = d then event_end_dt ev
            else get_day_end (tzinfo ev) d)"
  by (simp_all add: find_next_start_dt_bounds_def replace_hour_8_def)

text \<open>
  C1, at an event of three days. The claim gives as latest bound the end of the event on its
  last day and the end of the local day on every other day. On the last day (day 2) of the
  conference the code takes the end of the day, 23:59, although the event ends at 17:00, and
  so places a one-hour entry after the contribution that ends at 16:30, beyond the end of
  the event; on the first day (day 0) it takes the end of the event, two days later. The
  earliest bounds are as the claim says: 08:00 on day 2, the start of the event on day 0.
\<close>

theorem find_next_start_dt_bounds_multi_day:
  "find_next_start_dt_bounds (EventC conference) (Some 2)
     = Inr (2 * day_length + 8 * hour, 2 * day_length + 23 * hour + 59 * minute)
   \<and> end_dt_local_date conference = 2
   \<and> event_end_dt conference = 2 * day_length + 17 * hour
   \<and> find_next_start_dt hour (EventC conference) (Some 2) False
       = Inr (Some (2 * day_length + 16 * hour + 30 * minute))
   \<and> find_next_start_dt_bounds (EventC conference) (Some 0)
       = Inr (9 * hour, 2 * day_length + 17 * hour)
   \<and> get_day_end (tzinfo conference) 0 = 23 * hour + 59 * minute"
  by (simp add: find_next_start_dt_bounds_def find_next_start_dt_def find_latest_entry_end_dt_def
      entries_on_day_def latest_end_dt_def conference_def time_defs)

lemma find_next_start_dt_exceeds_window:
  assumes "find_next_start_dt_bounds obj day = Inr (earliest_dt, latest_dt)"
    and "duration > latest_dt - earliest_dt"
  shows "find_next_start_dt duration obj day force = Inr (if force then Some earliest_dt else None)"
  using assms by (simp add: find_next_start_dt_def)

lemma find_next_start_dt_workshop_ten_hours:
  "spec_bounds workshop 0 = (9 * hour, 17 * hour)
   \<and> find_next_start_dt (10 * hour) (EventC workshop) (Some 0) False = Inr None
   \<and> find_next_start_dt (10 * hour) (EventC workshop) (Some 0) True = Inr (Some (9 * hour))"
  by (simp add: spec_bounds_def find_next_start_dt_def find_next_start_dt_bounds_def workshop_def
      time_defs)

text \<open>
  C5, at the conference of three days. The window of the claim is that of the spec: on day 0
  from the start of the event, 09:00, to the end of the day, 23:59; on day 2 from 08:00 to the
  end of the event, 17:00. Twenty hours exceed the first window and ten hours the second, so
  by the claim the function returns \<^verbatim>\<open>None\<close> when \<^verbatim>\<open>force\<close> is false and the
  earliest bound when it is true. The code takes as latest bound the end of the event on day 0
  and the end of the day on day 2, finds that the durations fit, and returns 09:00 on day 0
  and 13:59 on day 2, whatever \<^verbatim>\<open>force\<close> is.
\<close>

theorem find_next_start_dt_window_multi_day:
  "spec_bounds conference 0 = (9 * hour, 23 * hour + 59 * minute)
   \<and> 20 * hour > 23 * hour + 59 * minute - 9 * hour
   \<and> find_next_start_dt (20 * hour) (EventC conference) (Some 0) False = Inr (Some (9 * hour))
   \<and> spec_bounds conference 2 = (2 * day_length + 8 * hour, 2 * day_length + 17 * hour)
   \<and> 10 * hour > (2 * day_length + 17 * hour) - (2 * day_length + 8 * hour)
   \<and> find_next_start_dt (10 * hour) (EventC conference) (Some 2) False
       = Inr (Some (2 * day_length + 13 * hour + 59 * minute))
   \<and> find_next_start_dt (10 * hour) (EventC conference) (Some 2) True
       = Inr (Some (2 * day_length + 13 * hour + 59 * minute))"
  by (simp add: spec_bounds_def find_next_start_dt_def find_next_start_dt_bounds_def
      find_latest_entry_end_dt_def entries_on_day_def latest_end_dt_def conference_def time_defs)




section \<open>Properties of the Cascade Shifter\<close>

lemma fold_update_length:
  "length (fold (\<lambda>i rows. rows[i := f (rows ! i)]) idxs rows) = length rows"
  by (induction idxs arbitrary: rows) auto

lemma fold_update_nth:
  "distinct idxs \<Longrightarrow> j < length rows \<Longrightarrow>
   fold (\<lambda>i rows. rows[i := f (rows ! i)]) idxs rows ! j
     = (if j \<in> set idxs then f (rows ! j) else rows ! j)"
proof (induction idxs arbitrary: rows)
  case Nil
  then show ?case by simp
next
  case (Cons i idxs)
  let ?rows = "rows[i := f (rows ! i)]"
  from Cons.prems have fresh: "i \<notin> set idxs" and d: "distinct idxs" and j: "j < length ?rows"
    by simp_all
  have step: "fold (\<lambda>i rows. rows[i := f (rows ! i)]) idxs ?rows ! j
     = (if j \<in> set idxs then f (?rows ! j) else ?rows ! j)"
    by (rule Cons.IH [OF d j])
  show ?case
  proof (cases "j = i")
    case True
    with fresh Cons.prems step show ?thesis by simp
  next
    case False
    with step show ?thesis by simp
  qed
qed

lemma query_all_distinct: "distinct (query_all rows q)"
  by (simp add: query_all_def)

lemma query_all_single:
  "j < length rows \<Longrightarrow> j \<in> set (query_all rows (query_filter [] c)) \<longleftrightarrow> c (rows ! j)"
  by (simp add: query_all_def query_filter_def)

lemma shift_following_entries_rows:
  "snd (shift_following_entries siblings entry shift session_arg)
     = fold (\<lambda>i rows. rows[i := move (rows ! i) (start_dt (rows ! i) + shift)])
         (query_all siblings (query_filter [] (\<lambda>e. start_dt e \<ge> end_dt entry))) siblings"
  by (simp add: shift_following_entries_def Let_def)

lemma shift_following_entries_nth:
  assumes "i < length siblings"
  shows "snd (shift_following_entries siblings entry shift session_arg) ! i
     = (if start_dt (siblings ! i) \<ge> end_dt entry
        then move (siblings ! i) (start_dt (siblings ! i) + shift) else siblings ! i)"
  using assms
  by (simp add: shift_following_entries_rows query_all_single
        fold_update_nth [OF query_all_distinct, where f = "\<lambda>e. move e (start_dt e + shift)"])

lemma shift_following_entries_any_session:
  "shift_following_entries siblings entry shift session_arg
     = shift_following_entries siblings entry shift None"
  by (simp add: shift_following_entries_def Let_def)

lemmas shift_eval = shift_following_entries_def query_all_def query_filter_def move_def Let_def
  morning_siblings_def trigger_def plenary_def posters_def hour_def minute_def
  session_block_has_session_id_def

text \<open>
  C2, at the morning of the scenario. The entry is top-level and the session \<open>plenary\<close> is
  given, so by the claim only the later block of that session (entry 5) is moved. The code
  moves every later sibling: the contribution (entry 3) and the block of the other session
  (entry 4) as well.
\<close>

theorem shift_following_entries_ignores_session:
  "parent_id trigger = None
   \<and> snd (shift_following_entries morning_siblings trigger (30 * minute) (Some plenary))
     = [TimetableEntry 2 (9 * hour) (9 * hour + 30 * minute) None (BreakObj 2 ''Coffee'' True) [],
        TimetableEntry 3 (11 * hour + 30 * minute) (11 * hour + 45 * minute) None
          (ContributionObj 3 ''Talk'' True) [],
        TimetableEntry 4 (12 * hour + 30 * minute) (13 * hour + 30 * minute) None
          (SessionBlockObj 4 ''Posters A'' True posters) [],
        TimetableEntry 5 (14 * hour + 30 * minute) (15 * hour + 30 * minute) None
          (SessionBlockObj 5 ''Plenary B'' True plenary) []]"
  by (simp add: shift_eval upt_rec)

text \<open>
  C3, at the same morning. By the claim the call returns the list of the three entries it
  shifted. The code returns \<^verbatim>\<open>None\<close>; it returns a list, the empty one, only when no
  sibling matched.
\<close>

theorem shift_following_entries_returns_none:
  "fst (shift_following_entries morning_siblings trigger (30 * minute) None) = None
   \<and> fst (shift_following_entries [] trigger (30 * minute) None) = Some []"
  by (simp add: shift_eval upt_rec)

text \<open>
  C4: for every entry, every shift (of either sign) and every session argument,
  \<^verbatim>\<open>shift_following_entries\<close> leaves each sibling that starts before the end of the entry
  as it is, and gives each sibling that starts at or after that end a start later by exactly
  the shift, with its duration \<^verbatim>\<open>end_dt - start_dt\<close> unchanged. The siblings stay the
  same in number and order.
\<close>

theorem shift_following_entries_frame:
  "length (snd (shift_following_entries siblings entry shift session_arg)) = length siblings
   \<and> (\<forall>i < length siblings.
        (start_dt (siblings ! i) < end_dt entry \<longrightarrow>
           snd (shift_following_entries siblings entry shift session_arg) ! i = siblings ! i)
      \<and> (start_dt (siblings ! i) \<ge> end_dt entry \<longrightarrow>
           start_dt (snd (shift_following_entries siblings entry shift session_arg) ! i)
             = start_dt (siblings ! i) + shift
         \<and> end_dt (snd (shift_following_entries siblings entry shift session_arg) ! i)
             - start_dt (snd (shift_following_entries siblings entry shift session_arg) ! i)
             = end_dt (siblings ! i) - start_dt (siblings ! i)))"
proof (intro conjI allI impI)
  show "length (snd (shift_following_entries siblings entry shift session_arg)) = length siblings"
    by (simp add: shift_following_entries_rows
          fold_update_length [where f = "\<lambda>e. move e (start_dt e + shift)"])
next
  fix i
  assume "i < length siblings" and "start_dt (siblings ! i) < end_dt entry"
  then show "snd (shift_following_entries siblings entry shift session_arg) ! i = siblings ! i"
    by (simp add: shift_following_entries_nth)
next
  fix i
  assume "i < length siblings" and "start_dt (siblings ! i) \<ge> end_dt entry"
  then show "start_dt (snd (shift_following_entries siblings entry shift session_arg) ! i)
             = start_dt (siblings ! i) + shift"
    by (simp add: shift_following_entries_nth move_def)
next
  fix i
  assume "i < length siblings" and "start_dt (siblings ! i) \<ge> end_dt entry"
  then show "end_dt (snd (shift_following_entries siblings entry shift session_arg) ! i)
             - start_dt (snd (shift_following_entries siblings entry shift session_arg) ! i)
             = end_dt (siblings ! i) - start_dt (siblings ! i)"
    by (simp add: shift_following_entries_nth move_def)
qed

text \<open>
  The scenario of the spec: the entry from 10:00 to 10:30 is the trigger and the shift is
  thirty minutes; the sibling from 09:00 to 09:30 stays, the sibling from 11:00 to 11:15
  moves to 11:30 and keeps its fifteen minutes.
\<close>

theorem shift_following_entries_frame_witness:
  "0 < length morning_siblings \<and> 1 < length morning_siblings
   \<and> start_dt (morning_siblings ! 0) < end_dt trigger
   \<and> snd (shift_following_entries morning_siblings trigger (30 * minute) None) ! 0
       = morning_siblings ! 0
   \<and> start_dt (morning_siblings ! 1) \<ge> end_dt trigger
   \<and> start_dt (snd (shift_following_entries morning_siblings trigger (30 * minute) None) ! 1)
       = 11 * hour + 30 * minute
   \<and> end_dt (snd (shift_following_entries morning_siblings trigger (30 * minute) None) ! 1)
       - start_dt (snd (shift_following_entries morning_siblings trigger (30 * minute) None) ! 1)
       = 15 * minute"
proof -
  note frame = shift_following_entries_frame [of morning_siblings trigger "30 * minute" None]
  have l0: "0 < length morning_siblings" and l1: "1 < length morning_siblings"
    by (simp_all add: morning_siblings_def)
  have before: "start_dt (morning_siblings ! 0) < end_dt trigger"
    by (simp add: morning_siblings_def trigger_def hour_def minute_def)
  have after: "start_dt (morning_siblings ! 1) \<ge> end_dt trigger"
    by (simp add: morning_siblings_def trigger_def hour_def minute_def)
  from frame l0 before
  have same: "snd (shift_following_entries morning_siblings trigger (30 * minute) None) ! 0
       = morning_siblings ! 0"
    by blast
  from frame l1 after
  have "start_dt (snd (shift_following_entries morning_siblings trigger (30 * minute) None) ! 1)
             = start_dt (morning_siblings ! 1) + 30 * minute
         \<and> end_dt (snd (shift_following_entries morning_siblings trigger (30 * minute) None) ! 1)
             - start_dt (snd (shift_following_entries morning_siblings trigger (30 * minute) None) ! 1)
             = end_dt (morning_siblings ! 1) - start_dt (morning_siblings ! 1)"
    by blast
  moreover have "start_dt (morning_siblings ! 1) + 30 * minute = 11 * hour + 30 * minute"
    and "end_dt (morning_siblings ! 1) - start_dt (morning_siblings ! 1) = 15 * minute"
    by (simp_all add: morning_siblings_def)
  ultimately show ?thesis using l0 l1 before after same by simp
qed

section \<open>Properties of the time change notifications\<close>

lemma change_message_not_notifiable:
  "\<not> notifiable obj \<Longrightarrow> change_message obj change = Inr None"
  by (cases obj) (auto simp: notifiable_def change_message_def)

lemma change_message_error:
  "notifiable obj \<Longrightarrow>
   (\<exists>err. change_message obj change = Inl err) \<longleftrightarrow> lacks_times change"
  by (cases obj) (auto simp: notifiable_def change_message_def lacks_times_def split: option.splits)

lemma change_message_ValueError:
  "change_message obj change = Inl err \<Longrightarrow> \<exists>m. err = ValueError m"
  by (cases obj) (auto simp: change_message_def split: option.splits if_splits)

lemma change_message_valid:
  "notifiable obj \<Longrightarrow> \<not> lacks_times change \<Longrightarrow>
   \<exists>msg t. change_message obj change = Inr (Some (msg, t))"
  by (cases obj) (auto simp: notifiable_def change_message_def lacks_times_def split: option.splits)

lemma notifications_loop_ok:
  "\<forall>(obj, change) \<in> set changes. \<not> (\<not> skipped entry obj \<and> notifiable obj \<and> lacks_times change) \<Longrightarrow>
   notifications_loop fmt tz entry changes acc = Inr (acc @ messages_of fmt tz entry changes)"
proof (induction changes arbitrary: acc)
  case Nil
  then show ?case by (simp add: messages_of_def)
next
  case (Cons oc changes)
  obtain obj change where oc: "oc = (obj, change)" by (cases oc)
  from Cons.prems have rest: "\<forall>(obj, change) \<in> set changes.
      \<not> (\<not> skipped entry obj \<and> notifiable obj \<and> lacks_times change)"
    by simp
  note IH = Cons.IH [OF rest]
  have tail: "messages_of fmt tz entry (oc # changes)
     = messages_of fmt tz entry [oc] @ messages_of fmt tz entry changes"
    by (simp add: messages_of_def)
  show ?case
  proof (cases "skipped entry obj")
    case True
    then show ?thesis using IH by (simp add: oc messages_of_def)
  next
    case ns: False
    show ?thesis
    proof (cases "notifiable obj")
      case False
      then show ?thesis using IH ns
        by (simp add: oc messages_of_def change_message_not_notifiable)
    next
      case True
      with Cons.prems ns have "\<not> lacks_times change" by (simp add: oc)
      from change_message_valid [OF True this]
      obtain msg t where "change_message obj change = Inr (Some (msg, t))" by blast
      then show ?thesis using IH ns True
        by (simp add: oc messages_of_def)
    qed
  qed
qed

lemma notifications_loop_raises:
  "\<exists>(obj, change) \<in> set changes. \<not> skipped entry obj \<and> notifiable obj \<and> lacks_times change \<Longrightarrow>
   \<exists>m. notifications_loop fmt tz entry changes acc = Inl (ValueError m)"
proof (induction changes arbitrary: acc)
  case Nil
  then show ?case by simp
next
  case (Cons oc changes)
  obtain obj change where oc: "oc = (obj, change)" by (cases oc)
  show ?case
  proof (cases "\<not> skipped entry obj \<and> notifiable obj \<and> lacks_times change")
    case True
    then obtain err where "change_message obj change = Inl err"
      using change_message_error by blast
    moreover from this obtain m where "err = ValueError m"
      using change_message_ValueError by blast
    ultimately show ?thesis using True by (simp add: oc)
  next
    case False
    with Cons.prems have ex: "\<exists>(obj, change) \<in> set changes.
        \<not> skipped entry obj \<and> notifiable obj \<and> lacks_times change"
      by (auto simp: oc)
    note IH = Cons.IH [OF ex]
    show ?thesis
    proof (cases "skipped entry obj")
      case True
      then show ?thesis using IH by (simp add: oc)
    next
      case ns: False
      show ?thesis
      proof (cases "change_message obj change")
        case (Inl err)
        then obtain m where "err = ValueError m"
          using change_message_ValueError by blast
        with Inl ns show ?thesis by (simp add: oc)
      next
        case (Inr r)
        then show ?thesis using IH ns by (cases r) (auto simp: oc)
      qed
    qed
  qed
qed

lemma messages_of_length:
  "\<forall>(obj, change) \<in> set changes. \<not> (\<not> skipped entry obj \<and> notifiable obj \<and> lacks_times change) \<Longrightarrow>
   length (messages_of fmt tz entry changes)
     = length (filter (\<lambda>(obj, change). \<not> skipped entry obj \<and> notifiable obj) changes)"
proof (induction changes)
  case Nil
  then show ?case by (simp add: messages_of_def)
next
  case (Cons oc changes)
  obtain obj change where oc: "oc = (obj, change)" by (cases oc)
  from Cons.prems have rest: "\<forall>(obj, change) \<in> set changes.
      \<not> (\<not> skipped entry obj \<and> notifiable obj \<and> lacks_times change)"
    by simp
  from Cons.IH [OF rest]
  have IH: "length (messages_of fmt tz entry changes)
     = length (filter (\<lambda>(obj, change). \<not> skipped entry obj \<and> notifiable obj) changes)" .
  show ?case
  proof (cases "\<not> skipped entry obj \<and> notifiable obj")
    case True
    with Cons.prems have "\<not> lacks_times change" by (simp add: oc)
    with True obtain msg t where "change_message obj change = Inr (Some (msg, t))"
      using change_message_valid by blast
    with True IH show ?thesis by (simp add: oc messages_of_def)
  next
    case False
    with IH show ?thesis by (auto simp: oc messages_of_def)
  qed
qed

text \<open>
  C9 as stated fails. A contribution whose change record has neither a \<^verbatim>\<open>start_dt\<close> nor
  an \<^verbatim>\<open>end_dt\<close> entry raises nothing, and neither does the session block of the entry
  argument itself: both calls return the empty list.
\<close>

theorem get_time_changes_notifications_no_raise:
  "lacks_times Map.empty
   \<and> get_time_changes_notifications clock [(ScheduledO talk_entry, Map.empty)] utc None = Inr []
   \<and> entry_type trigger = SESSION_BLOCK
   \<and> get_time_changes_notifications clock [(ScheduledO trigger, Map.empty)] utc (Some trigger)
       = Inr []"
  by (simp add: get_time_changes_notifications_def skipped_def change_message_def talk_entry_def
      trigger_def lacks_times_def)

text \<open>
  C9, amended. The call raises a validation failure exactly when some changed object that is
  not skipped and is an event or a session block has a record with neither a \<^verbatim>\<open>start_dt\<close>
  nor an \<^verbatim>\<open>end_dt\<close> entry; objects of other types and skipped objects never make it
  raise. When it does not raise it returns, in the order of the changes, one message for each
  changed object that is not skipped and is an event or a session block, and none for any
  other object. Skipped are the object of the entry argument and the objects whose timetable
  entry is a child of that entry.
\<close>

theorem get_time_changes_notifications_cases:
  "((\<exists>(obj, change) \<in> set changes. \<not> skipped entry obj \<and> notifiable obj \<and> lacks_times change)
      \<longrightarrow> (\<exists>m. get_time_changes_notifications format_time changes tz entry = Inl (ValueError m)))
   \<and> (\<not> (\<exists>(obj, change) \<in> set changes. \<not> skipped entry obj \<and> notifiable obj \<and> lacks_times change)
      \<longrightarrow> get_time_changes_notifications format_time changes tz entry
            = Inr (messages_of format_time tz entry changes)
        \<and> length (messages_of format_time tz entry changes)
            = length (filter (\<lambda>(obj, change). \<not> skipped entry obj \<and> notifiable obj) changes))
   \<and> (skipped entry obj \<longleftrightarrow>
        (\<exists>en te. entry = Some en \<and> obj = ScheduledO te
                 \<and> (object en = object te \<or> te \<in> set (children en))))"
proof (intro conjI impI)
  assume "\<exists>(obj, change) \<in> set changes. \<not> skipped entry obj \<and> notifiable obj \<and> lacks_times change"
  from notifications_loop_raises [OF this]
  show "\<exists>m. get_time_changes_notifications format_time changes tz entry = Inl (ValueError m)"
    by (simp add: get_time_changes_notifications_def)
next
  assume "\<not> (\<exists>(obj, change) \<in> set changes.
              \<not> skipped entry obj \<and> notifiable obj \<and> lacks_times change)"
  then have ok: "\<forall>(obj, change) \<in> set changes.
      \<not> (\<not> skipped entry obj \<and> notifiable obj \<and> lacks_times change)"
    by auto
  from notifications_loop_ok [OF ok, of format_time tz "[]"]
  show "get_time_changes_notifications format_time changes tz entry
            = Inr (messages_of format_time tz entry changes)"
    by (simp add: get_time_changes_notifications_def)
  from messages_of_length [OF ok]
  show "length (messages_of format_time tz entry changes)
            = length (filter (\<lambda>(obj, change). \<not> skipped entry obj \<and> notifiable obj) changes)" .
next
  show "skipped entry obj \<longleftrightarrow>
        (\<exists>en te. entry = Some en \<and> obj = ScheduledO te
                 \<and> (object en = object te \<or> te \<in> set (children en)))"
    by (cases entry; cases obj) (auto simp: skipped_def)
qed

text \<open>
  An event whose start moved to 11:00 gives one message, the contribution changed with it
  gives none; an event with an empty record raises.
\<close>

theorem get_time_changes_notifications_cases_witness:
  "\<not> (\<exists>(obj, change) \<in> set moved_event.
         \<not> skipped None obj \<and> notifiable obj \<and> lacks_times change)
   \<and> get_time_changes_notifications clock moved_event utc None
       = Inr [''Event start time changed to 11:00'']
   \<and> (\<exists>(obj, change) \<in> set [(EventO 1, Map.empty)].
         \<not> skipped None obj \<and> notifiable obj \<and> lacks_times change)
   \<and> (\<exists>m. get_time_changes_notifications clock [(EventO 1, Map.empty)] utc None
             = Inl (ValueError m))"
proof -
  have valid: "\<not> (\<exists>(obj, change) \<in> set moved_event.
         \<not> skipped None obj \<and> notifiable obj \<and> lacks_times change)"
    by (simp add: moved_event_def skipped_def notifiable_def lacks_times_def talk_entry_def)
  have msgs: "messages_of clock utc None moved_event = [''Event start time changed to 11:00'']"
    by (simp add: messages_of_def moved_event_def skipped_def notifiable_def change_message_def
        talk_entry_def clock_def)
  have invalid: "\<exists>(obj, change) \<in> set [(EventO 1, Map.empty)].
         \<not> skipped None obj \<and> notifiable obj \<and> lacks_times change"
    by (simp add: skipped_def notifiable_def lacks_times_def)
  from get_time_changes_notifications_cases [of moved_event None clock utc] valid
  have "get_time_changes_notifications clock moved_event utc None
       = Inr (messages_of clock utc None moved_event)"
    by blast
  moreover
  from get_time_changes_notifications_cases [of "[(EventO 1, Map.empty)]" None clock utc] invalid
  have "\<exists>m. get_time_changes_notifications clock [(EventO 1, Map.empty)] utc None
             = Inl (ValueError m)"
    by blast
  ultimately show ?thesis using valid invalid msgs by simp
qed

section \<open>Properties of the location conditions\<close>

lemma fold_upd_last:
  "\<forall>e \<in> set es. \<forall>e' \<in> set es. k e = k e' \<longrightarrow> e = e' \<Longrightarrow> e \<in> set es \<Longrightarrow>
   fold (\<lambda>e d. d(k e \<mapsto> g e)) es d0 (k e) = Some (g e)"
proof (induction es rule: rev_induct)
  case Nil
  then show ?case by simp
next
  case (snoc x es)
  show ?case
  proof (cases "k e = k x")
    case True
    with snoc.prems have "e = x" by auto
    then show ?thesis by simp
  next
    case False
    with snoc.prems have "e \<in> set es" by auto
    moreover from snoc.prems have "\<forall>e \<in> set es. \<forall>e' \<in> set es. k e = k e' \<longrightarrow> e = e'" by simp
    ultimately show ?thesis using snoc.IH False by simp
  qed
qed

text \<open>
  C10: for every list of top-level entries, in which an id names one entry,
  \<^verbatim>\<open>show_siblings_location\<close> is true exactly when some entry does not inherit its location
  or is a session block entry that inherits its location from a session that does not
  inherit its own; and for every entry of the list \<^verbatim>\<open>show_children_location\<close> holds, under
  the id of the entry, whether some child of the entry does not inherit its location (false
  for an entry without children).
\<close>

theorem location_conditions_iff:
  assumes "\<forall>e \<in> set entries. \<forall>e' \<in> set entries. entry_id e = entry_id e' \<longrightarrow> e = e'"
  shows "(fst (get_nested_timetable_location_conditions entries) \<longleftrightarrow>
            (\<exists>e \<in> set entries. \<not> inherit_location (object e)
                \<or> (entry_type e = SESSION_BLOCK \<and> inherit_location (object e)
                    \<and> \<not> session_inherit_location (session (object e)))))
       \<and> (\<forall>e \<in> set entries.
            snd (get_nested_timetable_location_conditions entries) (entry_id e)
              = Some (\<exists>c \<in> set (children e). \<not> inherit_location (object c)))"
proof
  show "fst (get_nested_timetable_location_conditions entries) \<longleftrightarrow>
            (\<exists>e \<in> set entries. \<not> inherit_location (object e)
                \<or> (entry_type e = SESSION_BLOCK \<and> inherit_location (object e)
                    \<and> \<not> session_inherit_location (session (object e))))"
    by (simp add: get_nested_timetable_location_conditions_def list_ex_iff del: entry_type.simps)
next
  show "\<forall>e \<in> set entries.
            snd (get_nested_timetable_location_conditions entries) (entry_id e)
              = Some (\<exists>c \<in> set (children e). \<not> inherit_location (object c))"
  proof
    fix e assume "e \<in> set entries"
    from fold_upd_last [OF assms this]
    show "snd (get_nested_timetable_location_conditions entries) (entry_id e)
              = Some (\<exists>c \<in> set (children e). \<not> inherit_location (object c))"
      by (simp add: get_nested_timetable_location_conditions_def list_all_iff)
  qed
qed

text \<open>
  The programme: no entry has a location of its own, the keynote in the block has one, the
  break has no children.
\<close>

theorem location_conditions_iff_witness:
  "distinct (map entry_id programme)
   \<and> \<not> fst (get_nested_timetable_location_conditions programme)
   \<and> snd (get_nested_timetable_location_conditions programme) 10 = Some True
   \<and> snd (get_nested_timetable_location_conditions programme) 11 = Some False"
proof -
  have ids: "\<forall>e \<in> set programme. \<forall>e' \<in> set programme. entry_id e = entry_id e' \<longrightarrow> e = e'"
    by (simp add: programme_def)
  note loc = location_conditions_iff [OF ids]
  from loc have "fst (get_nested_timetable_location_conditions programme) \<longleftrightarrow>
            (\<exists>e \<in> set programme. \<not> inherit_location (object e)
                \<or> (entry_type e = SESSION_BLOCK \<and> inherit_location (object e)
                    \<and> \<not> session_inherit_location (session (object e))))"
    by blast
  then have sib: "\<not> fst (get_nested_timetable_location_conditions programme)"
    by (simp add: programme_def plenary_def)
  from loc have ch: "\<forall>e \<in> set programme.
            snd (get_nested_timetable_location_conditions programme) (entry_id e)
              = Some (\<exists>c \<in> set (children e). \<not> inherit_location (object c))"
    by blast
  have "snd (get_nested_timetable_location_conditions programme) 10 = Some True"
    and "snd (get_nested_timetable_location_conditions programme) 11 = Some False"
    using ch by (simp_all add: programme_def)
  moreover have "distinct (map entry_id programme)"
    by (simp add: programme_def)
  ultimately show ?thesis using sib by blast
qed

section \<open>Properties of the Nested Timetable Builder\<close>











section \<open>Properties of the Category Timetable Aggregator\<close>




























lemmas agg_defs = get_category_timetable_def Let_def dd_get_def dd_append_def days_loop_def
  iterdays_def dt_date_def dates_overlap_def query_blocks_def query_contributions_def
  query_breaks_def grouped_details_of_def flat_details_of_def add_grouped_def add_flat_def
  include_all_def seminar_store_def day_store_def kiritimati_day_def utc_day_def
  has_day_in_interval_def without_timetable_def

text \<open>
  An interval given in another zone than the display timezone, which the docstring of the
  function excludes. The interval is day 1 in a zone fourteen hours east of UTC and the
  display timezone is UTC. The seminar takes place within the interval (12:00 to 13:00 UTC on
  day 0) and has no timetable entry, so the first query yields it without a start. Its only
  UTC day is day 0, the dates of \<^verbatim>\<open>start_dt\<close> and \<^verbatim>\<open>end_dt\<close> are both day 1, and the
  loop over the days of the grouped mode runs over no day: the grouped output does not
  contain the seminar, the ungrouped output does.
\<close>

lemma event_lost_outside_display_zone:
  "get_category_timetable seminar_store (fst kiritimati_day) (snd kiritimati_day) ''event'' utc
     True include_all = Inr (Grouped [] [] [])
   \<and> get_category_timetable seminar_store (fst kiritimati_day) (snd kiritimati_day) ''event'' utc
     False include_all = Inr (Flat [seminar] [] [])
   \<and> dt_date (fst kiritimati_day) = 1 \<and> dt_date (snd kiritimati_day) = 1
   \<and> dt_instant (fst kiritimati_day) \<le> event_end_dt seminar
   \<and> event_start_dt seminar \<le> dt_instant (snd kiritimati_day)
   \<and> seminar \<in> result_events (Flat [seminar] [] [])
   \<and> seminar \<notin> result_events (Grouped [] [] [])"
  by (simp add: agg_defs time_defs seminar_def)






















end
